theory Spec2Isabelle
  imports Main "HOL-Library.Signed_Division"
begin

section \<open>Position resolver (GetVisiblePosition)\<close>

text \<open>
  The tooltip position helper decides on which side of its parent a tooltip is shown.
  It receives two measured rectangles and the wanted position, and reads the size of the
  visible area from the browser (\<open>window.innerHeight || documentElement.clientHeight\<close>,
  and the same for the width).

  Numbers are kept abstract: the functions below only compare with \<open>\<le>\<close>, subtract and
  test against \<open>0\<close>, so the number type \<open>'a\<close> is any type with these three operations
  and no law is assumed about them.  Positions are the strings of the source, so that
  the \<open>default\<close> branch of the \<open>switch\<close> is part of the model.
\<close>

record 'a DOMRect =
  top_edge :: 'a
  right :: 'a
  bottom :: 'a
  left :: 'a
  width :: 'a
  height :: 'a

text \<open>The two browser objects the helper reads, passed explicitly.\<close>

record 'a Window =
  innerWidth :: 'a
  innerHeight :: 'a

record 'a DocumentElement =
  clientWidth :: 'a
  clientHeight :: 'a

type_synonym Position = string

text \<open>JavaScript's \<open>a || b\<close> on numbers: \<open>b\<close> when \<open>a\<close> is zero, else \<open>a\<close>.\<close>

definition js_or :: "'a::zero \<Rightarrow> 'a \<Rightarrow> 'a" where
  "js_or a b = (if a = 0 then b else a)"

definition hasPlaceAtTop :: "('a::ord) DOMRect \<Rightarrow> 'a DOMRect \<Rightarrow> bool" where
  "hasPlaceAtTop tooltipDomRect parentDomRect =
     (top_edge parentDomRect \<ge> height tooltipDomRect)"

definition hasPlaceAtLeft :: "('a::ord) DOMRect \<Rightarrow> 'a DOMRect \<Rightarrow> bool" where
  "hasPlaceAtLeft tooltipDomRect parentDomRect =
     (left parentDomRect \<ge> width tooltipDomRect)"

definition hasPlaceAtBottom ::
  "('a::{ord,minus,zero}) Window \<Rightarrow> 'a DocumentElement \<Rightarrow> 'a DOMRect \<Rightarrow> 'a DOMRect \<Rightarrow> bool" where
  "hasPlaceAtBottom window documentElement tooltipDomRect parentDomRect =
     (let clientHeight' = js_or (innerHeight window) (clientHeight documentElement)
      in height tooltipDomRect \<le> clientHeight' - bottom parentDomRect)"

definition hasPlaceAtRight ::
  "('a::{ord,minus,zero}) Window \<Rightarrow> 'a DocumentElement \<Rightarrow> 'a DOMRect \<Rightarrow> 'a DOMRect \<Rightarrow> bool" where
  "hasPlaceAtRight window documentElement tooltipDomRect parentDomRect =
     (let clientWidth' = js_or (innerWidth window) (clientWidth documentElement)
      in width tooltipDomRect \<le> clientWidth' - right parentDomRect)"

definition isNotFittingOnTopButCanOnBottom ::
  "('a::{ord,minus,zero}) Window \<Rightarrow> 'a DocumentElement \<Rightarrow> 'a DOMRect \<Rightarrow> 'a DOMRect \<Rightarrow> bool" where
  "isNotFittingOnTopButCanOnBottom window documentElement tooltipDomRect parentDomRect =
     (\<not> hasPlaceAtTop tooltipDomRect parentDomRect \<and>
      hasPlaceAtBottom window documentElement tooltipDomRect parentDomRect)"

definition isNotFittingOnRightButCanOnLeft ::
  "('a::{ord,minus,zero}) Window \<Rightarrow> 'a DocumentElement \<Rightarrow> 'a DOMRect \<Rightarrow> 'a DOMRect \<Rightarrow> bool" where
  "isNotFittingOnRightButCanOnLeft window documentElement tooltipDomRect parentDomRect =
     (\<not> hasPlaceAtRight window documentElement tooltipDomRect parentDomRect \<and>
      hasPlaceAtLeft tooltipDomRect parentDomRect)"

definition isNotFittingOnBottomButCanOnTop ::
  "('a::{ord,minus,zero}) Window \<Rightarrow> 'a DocumentElement \<Rightarrow> 'a DOMRect \<Rightarrow> 'a DOMRect \<Rightarrow> bool" where
  "isNotFittingOnBottomButCanOnTop window documentElement tooltipDomRect parentDomRect =
     (\<not> hasPlaceAtBottom window documentElement tooltipDomRect parentDomRect \<and>
      hasPlaceAtTop tooltipDomRect parentDomRect)"

definition isNotFittingOnLeftButCanOnRight ::
  "('a::{ord,minus,zero}) Window \<Rightarrow> 'a DocumentElement \<Rightarrow> 'a DOMRect \<Rightarrow> 'a DOMRect \<Rightarrow> bool" where
  "isNotFittingOnLeftButCanOnRight window documentElement tooltipDomRect parentDomRect =
     (\<not> hasPlaceAtLeft tooltipDomRect parentDomRect \<and>
      hasPlaceAtRight window documentElement tooltipDomRect parentDomRect)"

definition GetVisiblePosition ::
  "('a::{ord,minus,zero}) Window \<Rightarrow> 'a DocumentElement \<Rightarrow> 'a DOMRect \<Rightarrow> 'a DOMRect \<Rightarrow>
     Position \<Rightarrow> Position" where
  "GetVisiblePosition window documentElement tooltipDomRect parentDomRect position =
     (if position = ''top'' then
        (if isNotFittingOnTopButCanOnBottom window documentElement tooltipDomRect parentDomRect
         then ''bottom'' else ''top'')
      else if position = ''right'' then
        (if isNotFittingOnRightButCanOnLeft window documentElement tooltipDomRect parentDomRect
         then ''left'' else ''right'')
      else if position = ''bottom'' then
        (if isNotFittingOnBottomButCanOnTop window documentElement tooltipDomRect parentDomRect
         then ''top'' else ''bottom'')
      else if position = ''left'' then
        (if isNotFittingOnLeftButCanOnRight window documentElement tooltipDomRect parentDomRect
         then ''right'' else ''left'')
      else ''top'')"

subsection \<open>The resolver as the specification words it\<close>

text \<open>
  The specification gives the resolver a fourth input, the viewport size, and describes
  the result through four fit predicates and a flip to the opposite side.  The
  definitions of this subsection follow that wording; \<open>viewport_of\<close> is the viewport
  the source computes from the browser objects.
\<close>

record 'a Viewport =
  viewport_width :: 'a
  viewport_height :: 'a

definition viewport_of :: "('a::zero) Window \<Rightarrow> 'a DocumentElement \<Rightarrow> 'a Viewport" where
  "viewport_of window documentElement =
     \<lparr> viewport_width = js_or (innerWidth window) (clientWidth documentElement),
       viewport_height = js_or (innerHeight window) (clientHeight documentElement) \<rparr>"

definition fits_top :: "('a::ord) DOMRect \<Rightarrow> 'a DOMRect \<Rightarrow> bool" where
  "fits_top overlayRect anchorRect = (top_edge anchorRect \<ge> height overlayRect)"

definition fits_bottom :: "('a::{ord,minus}) DOMRect \<Rightarrow> 'a DOMRect \<Rightarrow> 'a Viewport \<Rightarrow> bool" where
  "fits_bottom overlayRect anchorRect viewport =
     (height overlayRect \<le> viewport_height viewport - bottom anchorRect)"

definition fits_left :: "('a::ord) DOMRect \<Rightarrow> 'a DOMRect \<Rightarrow> bool" where
  "fits_left overlayRect anchorRect = (left anchorRect \<ge> width overlayRect)"

definition fits_right :: "('a::{ord,minus}) DOMRect \<Rightarrow> 'a DOMRect \<Rightarrow> 'a Viewport \<Rightarrow> bool" where
  "fits_right overlayRect anchorRect viewport =
     (width overlayRect \<le> viewport_width viewport - right anchorRect)"

definition recognised :: "Position \<Rightarrow> bool" where
  "recognised side =
     (side = ''top'' \<or> side = ''right'' \<or> side = ''bottom'' \<or> side = ''left'')"

definition opposite :: "Position \<Rightarrow> Position" where
  "opposite side =
     (if side = ''top'' then ''bottom''
      else if side = ''bottom'' then ''top''
      else if side = ''left'' then ''right''
      else ''left'')"

definition fits ::
  "('a::{ord,minus}) DOMRect \<Rightarrow> 'a DOMRect \<Rightarrow> 'a Viewport \<Rightarrow> Position \<Rightarrow> bool" where
  "fits overlayRect anchorRect viewport side =
     (if side = ''top'' then fits_top overlayRect anchorRect
      else if side = ''bottom'' then fits_bottom overlayRect anchorRect viewport
      else if side = ''left'' then fits_left overlayRect anchorRect
      else fits_right overlayRect anchorRect viewport)"

definition resolveSide ::
  "('a::{ord,minus}) DOMRect \<Rightarrow> 'a DOMRect \<Rightarrow> 'a Viewport \<Rightarrow> Position \<Rightarrow> Position" where
  "resolveSide overlayRect anchorRect viewport preferred =
     (if recognised preferred then
        (if \<not> fits overlayRect anchorRect viewport preferred \<and>
            fits overlayRect anchorRect viewport (opposite preferred)
         then opposite preferred else preferred)
      else ''top'')"


section \<open>Action menu controller (ActionMenu)\<close>

text \<open>
  The action menu is a React function component.  Its state is the pair of state hooks
  \<open>showMenu\<close> and \<open>currentFocusedOption\<close>.  An event handler runs inside one render:
  every read of \<open>showMenu\<close> or \<open>currentFocusedOption\<close> sees the value of that render,
  and every \<open>setShowMenu\<close> / \<open>setCurrentFocusedOption\<close> only records the value the next
  render will see (the last write wins).  The model keeps the two apart: a handler
  receives the render's state as \<open>state\<close>, and threads a \<open>Run\<close> that holds the state
  of the next render together with the log of calls made so far.
\<close>

subsection \<open>Options and props\<close>

text \<open>
  \<open>OptionType\<close> comes from the list package; the menu reads its \<open>value\<close>, \<open>disabled\<close>
  and \<open>type\<close> fields.  \<open>disabled\<close> is an optional property.
\<close>

record 'v ActionMenuOption =
  "value" :: 'v
  label :: string
  disabled :: "bool option"

record 'v OptionType = "'v ActionMenuOption" +
  "type" :: string

text \<open>\<open>closeOnSelect?: boolean | ((option: OptionType) => boolean)\<close>\<close>

datatype 'v CloseOnSelect = Flag bool | Predicate "'v OptionType \<Rightarrow> bool"

abbreviation Always :: "'v CloseOnSelect" where "Always \<equiv> Flag True"
abbreviation Never :: "'v CloseOnSelect" where "Never \<equiv> Flag False"

text \<open>
  The props the controller uses.  \<open>closeOnSelect\<close> and \<open>isOpen\<close> are optional and get
  their defaults when the component destructures its props.  The three callbacks are
  optional too: the field tells whether the prop is given, and a call of a given
  callback is an entry of the log.
\<close>

record 'v ActionMenuProps =
  closeOnSelect :: "'v CloseOnSelect option"
  isOpen :: "bool option"
  onMenuClose :: bool
  onMenuOpen :: bool
  onOptionSelect :: bool
  options :: "'v ActionMenuOption list"

definition closeOnSelect_prop :: "'v ActionMenuProps \<Rightarrow> 'v CloseOnSelect" where
  "closeOnSelect_prop props = (case closeOnSelect props of None \<Rightarrow> Flag True | Some c \<Rightarrow> c)"

definition isOpen_prop :: "'v ActionMenuProps \<Rightarrow> bool" where
  "isOpen_prop props = (case isOpen props of None \<Rightarrow> False | Some b \<Rightarrow> b)"

text \<open>\<open>{ ...option, type: 'list' }\<close>\<close>

definition listOption :: "'v ActionMenuOption \<Rightarrow> 'v OptionType" where
  "listOption option =
     \<lparr> value = value option, label = label option, disabled = disabled option,
       type = ''list'' \<rparr>"

definition actionMenuOptions :: "'v ActionMenuProps \<Rightarrow> 'v OptionType list" where
  "actionMenuOptions props = map listOption (options props)"

subsection \<open>State, log and the state setters\<close>

record 'v MenuState =
  showMenu :: bool
  currentFocusedOption :: "'v OptionType option"

text \<open>
  The log has one entry for each entry into \<open>toggleMenu\<close> and \<open>selectOption\<close>, for each
  call of a callback prop, and for each call of a method of the keyboard event, in
  program order.
\<close>

datatype 'v Call =
    Call_toggleMenu bool
  | Call_selectOption "'v OptionType"
  | Call_onMenuClose
  | Call_onMenuOpen
  | Call_onOptionSelect "'v OptionType"
  | Call_preventDefault
  | Call_stopPropagation

record 'v Run =
  next_state :: "'v MenuState"
  calls :: "'v Call list"

definition initialState :: "'v ActionMenuProps \<Rightarrow> 'v MenuState" where
  "initialState props = \<lparr> showMenu = isOpen_prop props, currentFocusedOption = None \<rparr>"

definition start :: "'v MenuState \<Rightarrow> 'v Run" where
  "start state = \<lparr> next_state = state, calls = [] \<rparr>"

definition call :: "'v Call \<Rightarrow> 'v Run \<Rightarrow> 'v Run" where
  "call c run = run \<lparr> calls := calls run @ [c] \<rparr>"

definition setShowMenu :: "bool \<Rightarrow> 'v Run \<Rightarrow> 'v Run" where
  "setShowMenu v run = run \<lparr> next_state := (next_state run) \<lparr> showMenu := v \<rparr> \<rparr>"

definition setCurrentFocusedOption :: "'v OptionType option \<Rightarrow> 'v Run \<Rightarrow> 'v Run" where
  "setCurrentFocusedOption v run =
     run \<lparr> next_state := (next_state run) \<lparr> currentFocusedOption := v \<rparr> \<rparr>"

subsection \<open>Array helpers of JavaScript\<close>

text \<open>\<open>xs[i]\<close>: \<open>undefined\<close> (here \<open>None\<close>) outside the array.\<close>

definition js_index :: "'a list \<Rightarrow> int \<Rightarrow> 'a option" where
  "js_index xs i = (if 0 \<le> i \<and> i < int (length xs) then Some (xs ! nat i) else None)"

text \<open>\<open>xs.findIndex(p)\<close>: the index of the first element satisfying \<open>p\<close>, or \<open>-1\<close>.\<close>

fun findIndex_from :: "('a \<Rightarrow> bool) \<Rightarrow> 'a list \<Rightarrow> int \<Rightarrow> int" where
  "findIndex_from p [] k = - 1"
| "findIndex_from p (x # xs) k = (if p x then k else findIndex_from p xs (k + 1))"

definition findIndex :: "('a \<Rightarrow> bool) \<Rightarrow> 'a list \<Rightarrow> int" where
  "findIndex p xs = findIndex_from p xs 0"

subsection \<open>The controller's functions\<close>

definition isOptionDisabled :: "'v OptionType option \<Rightarrow> bool" where
  "isOptionDisabled option =
     (case option of
        None \<Rightarrow> False
      | Some opt \<Rightarrow>
          if type opt = ''list'' then (case disabled opt of None \<Rightarrow> False | Some d \<Rightarrow> d)
          else False)"

definition toggleMenu :: "'v ActionMenuProps \<Rightarrow> bool \<Rightarrow> 'v Run \<Rightarrow> 'v Run" where
  "toggleMenu props open run =
     (let run1 = setShowMenu open (call (Call_toggleMenu open) run)
      in if \<not> open then (if onMenuClose props then call Call_onMenuClose run1 else run1)
         else if onMenuOpen props then call Call_onMenuOpen run1
         else run1)"

definition closeMenuOnSelect :: "'v ActionMenuProps \<Rightarrow> 'v OptionType \<Rightarrow> bool" where
  "closeMenuOnSelect props option =
     (case closeOnSelect_prop props of
        Predicate f \<Rightarrow> f option
      | Flag b \<Rightarrow> b)"

definition selectOption :: "'v ActionMenuProps \<Rightarrow> 'v OptionType \<Rightarrow> 'v Run \<Rightarrow> 'v Run" where
  "selectOption props option run =
     (let run1 = call (Call_selectOption option) run;
          run2 = (if onOptionSelect props then call (Call_onOptionSelect option) run1 else run1)
      in if closeMenuOnSelect props option then toggleMenu props False run2 else run2)"

definition hoverOption :: "'v OptionType \<Rightarrow> 'v Run \<Rightarrow> 'v Run" where
  "hoverOption option run = setCurrentFocusedOption (Some option) run"

definition enabledOptions :: "'v ActionMenuProps \<Rightarrow> 'v OptionType list" where
  "enabledOptions props =
     filter (\<lambda>option. \<not> isOptionDisabled (Some option)) (actionMenuOptions props)"

definition currentFocusedIndex :: "'v ActionMenuProps \<Rightarrow> 'v MenuState \<Rightarrow> int" where
  "currentFocusedIndex props state =
     (case currentFocusedOption state of
        None \<Rightarrow> - 1
      | Some focused \<Rightarrow>
          findIndex (\<lambda>enabledOption. value enabledOption = value focused)
            (enabledOptions props))"

text \<open>
  \<open>focusOption\<close>: the \<open>switch\<close> has the cases \<open>up\<close>, \<open>down\<close>, \<open>last\<close> and a default,
  which serves \<open>first\<close>.  \<open>%\<close> is JavaScript's remainder (\<open>smod\<close>, the sign of the
  dividend).
\<close>

definition focusOption ::
  "'v ActionMenuProps \<Rightarrow> 'v MenuState \<Rightarrow> string \<Rightarrow> 'v Run \<Rightarrow> 'v Run" where
  "focusOption props state direction run =
     (if length (enabledOptions props) = 0 then run
      else if direction = ''up'' then
        setCurrentFocusedOption
          (js_index (enabledOptions props)
             (if currentFocusedIndex props state > 0
              then currentFocusedIndex props state - 1
              else int (length (enabledOptions props)) - 1)) run
      else if direction = ''down'' then
        setCurrentFocusedOption
          (js_index (enabledOptions props)
             ((currentFocusedIndex props state + 1) smod int (length (enabledOptions props)))) run
      else if direction = ''last'' then
        setCurrentFocusedOption
          (js_index (enabledOptions props) (int (length (enabledOptions props)) - 1)) run
      else
        setCurrentFocusedOption (js_index (enabledOptions props) 0) run)"

text \<open>The \<open>Keys\<close> enumeration: the strings of \<open>KeyboardEvent.key\<close>.\<close>

definition Enter :: string where "Enter = ''Enter''"
definition Space :: string where "Space = '' ''"
definition ArrowDown :: string where "ArrowDown = ''ArrowDown''"
definition ArrowUp :: string where "ArrowUp = ''ArrowUp''"
definition Escape :: string where "Escape = ''Escape''"
definition Tab :: string where "Tab = ''Tab''"
definition Home :: string where "Home = ''Home''"
definition End :: string where "End = ''End''"

definition consume :: "'v Run \<Rightarrow> 'v Run" where
  "consume run = call Call_stopPropagation (call Call_preventDefault run)"

definition handleOnKeyDown ::
  "'v ActionMenuProps \<Rightarrow> 'v MenuState \<Rightarrow> string \<Rightarrow> 'v Run \<Rightarrow> 'v Run" where
  "handleOnKeyDown props state key run =
     (if key = Escape then
        (if showMenu state then toggleMenu props (showMenu state) run else run)
      else if key = Enter then
        (let run1 = consume run;
             run2 = (case currentFocusedOption state of
                       Some focused \<Rightarrow> selectOption props focused run1
                     | None \<Rightarrow> run1)
         in if (currentFocusedOption state = None \<and> showMenu state) \<or> \<not> showMenu state
            then toggleMenu props (\<not> showMenu state) run2
            else run2)
      else if key = Space then
        (if \<not> showMenu state then toggleMenu props True run else run)
      else if key = ArrowUp then focusOption props state ''up'' (consume run)
      else if key = ArrowDown then focusOption props state ''down'' (consume run)
      else if key = Home then focusOption props state ''first'' (consume run)
      else if key = End then focusOption props state ''last'' (consume run)
      else if key = Tab then
        (if showMenu state then toggleMenu props (showMenu state) run else run)
      else run)"

text \<open>The dropdown's \<open>onClose\<close> and the trigger's \<open>onClick\<close>.\<close>

definition onClose :: "'v ActionMenuProps \<Rightarrow> 'v Run \<Rightarrow> 'v Run" where
  "onClose props run = toggleMenu props False run"

definition onClick :: "'v ActionMenuProps \<Rightarrow> 'v MenuState \<Rightarrow> 'v Run \<Rightarrow> 'v Run" where
  "onClick props state run = toggleMenu props (\<not> showMenu state) run"

subsection \<open>Reading the log and the focus\<close>

text \<open>
  \<open>new_calls run run'\<close> are the calls a handler added when it took \<open>run\<close> to \<open>run'\<close>.
  \<open>toggleMenu_calls\<close> and \<open>selectOption_calls\<close> name the entries one call of
  \<open>toggleMenu\<close> and of \<open>selectOption\<close> adds.
\<close>

fun is_callback :: "'v Call \<Rightarrow> bool" where
  "is_callback Call_onMenuClose = True"
| "is_callback Call_onMenuOpen = True"
| "is_callback (Call_onOptionSelect option) = True"
| "is_callback c = False"

fun is_selectOption :: "'v Call \<Rightarrow> bool" where
  "is_selectOption (Call_selectOption option) = True"
| "is_selectOption c = False"

definition new_calls :: "'v Run \<Rightarrow> 'v Run \<Rightarrow> 'v Call list" where
  "new_calls run run' = drop (length (calls run)) (calls run')"

definition toggleMenu_calls :: "'v ActionMenuProps \<Rightarrow> bool \<Rightarrow> 'v Call list" where
  "toggleMenu_calls props open =
     Call_toggleMenu open #
       (if open then (if onMenuOpen props then [Call_onMenuOpen] else [])
        else (if onMenuClose props then [Call_onMenuClose] else []))"

definition selectOption_calls :: "'v ActionMenuProps \<Rightarrow> 'v OptionType \<Rightarrow> 'v Call list" where
  "selectOption_calls props option =
     Call_selectOption option #
       (if onOptionSelect props then [Call_onOptionSelect option] else []) @
       (if closeMenuOnSelect props option then toggleMenu_calls props False else [])"

text \<open>The focus invariant: the focus is empty or one of the enabled options.\<close>

definition focus_enabled :: "'v ActionMenuProps \<Rightarrow> 'v MenuState \<Rightarrow> bool" where
  "focus_enabled props state =
     (case currentFocusedOption state of
        None \<Rightarrow> True
      | Some option \<Rightarrow> option \<in> set (enabledOptions props))"

subsection \<open>Example data\<close>

definition ex_A :: "string ActionMenuOption" where
  "ex_A = \<lparr> value = ''a'', label = ''A'', disabled = None \<rparr>"

definition ex_B :: "string ActionMenuOption" where
  "ex_B = \<lparr> value = ''b'', label = ''B'', disabled = Some True \<rparr>"

definition ex_C :: "string ActionMenuOption" where
  "ex_C = \<lparr> value = ''c'', label = ''C'', disabled = Some False \<rparr>"

definition ex_A2 :: "string ActionMenuOption" where
  "ex_A2 = \<lparr> value = ''a'', label = ''A again'', disabled = None \<rparr>"

definition ex_X :: "string ActionMenuOption" where
  "ex_X = \<lparr> value = ''x'', label = ''X'', disabled = None \<rparr>"

definition ex_Y :: "string ActionMenuOption" where
  "ex_Y = \<lparr> value = ''y'', label = ''Y'', disabled = None \<rparr>"

text \<open>Props with every callback given and the default close-on-select policy.\<close>

definition ex_props :: "string ActionMenuOption list \<Rightarrow> string ActionMenuProps" where
  "ex_props opts =
     \<lparr> closeOnSelect = None, isOpen = None, onMenuClose = True, onMenuOpen = True,
       onOptionSelect = True, options = opts \<rparr>"

definition focused_on :: "bool \<Rightarrow> 'v OptionType option \<Rightarrow> 'v MenuState" where
  "focused_on shown focus = \<lparr> showMenu = shown, currentFocusedOption = focus \<rparr>"

section \<open>Properties of the position resolver\<close>

lemma opposite_differs: "recognised side \<Longrightarrow> opposite side \<noteq> side"
  by (auto simp: recognised_def opposite_def)

lemma fits_viewport_of:
  "fits tooltipDomRect parentDomRect (viewport_of window documentElement) ''top'' =
     hasPlaceAtTop tooltipDomRect parentDomRect"
  "fits tooltipDomRect parentDomRect (viewport_of window documentElement) ''bottom'' =
     hasPlaceAtBottom window documentElement tooltipDomRect parentDomRect"
  "fits tooltipDomRect parentDomRect (viewport_of window documentElement) ''left'' =
     hasPlaceAtLeft tooltipDomRect parentDomRect"
  "fits tooltipDomRect parentDomRect (viewport_of window documentElement) ''right'' =
     hasPlaceAtRight window documentElement tooltipDomRect parentDomRect"
  by (simp_all add: fits_def fits_top_def fits_bottom_def fits_left_def fits_right_def
      viewport_of_def hasPlaceAtTop_def hasPlaceAtBottom_def hasPlaceAtLeft_def
      hasPlaceAtRight_def)

lemma GetVisiblePosition_refines:
  "GetVisiblePosition window documentElement overlayRect anchorRect preferred =
     resolveSide overlayRect anchorRect (viewport_of window documentElement) preferred"
proof (cases "recognised preferred")
  case False
  then show ?thesis
    by (simp add: GetVisiblePosition_def resolveSide_def recognised_def)
next
  case True
  then consider "preferred = ''top''" | "preferred = ''right''"
    | "preferred = ''bottom''" | "preferred = ''left''"
    by (auto simp: recognised_def)
  then show ?thesis
  proof cases
    case 1
    then show ?thesis
      by (simp add: GetVisiblePosition_def resolveSide_def recognised_def opposite_def
          fits_viewport_of isNotFittingOnTopButCanOnBottom_def)
  next
    case 2
    then show ?thesis
      by (simp add: GetVisiblePosition_def resolveSide_def recognised_def opposite_def
          fits_viewport_of isNotFittingOnRightButCanOnLeft_def)
  next
    case 3
    then show ?thesis
      by (simp add: GetVisiblePosition_def resolveSide_def recognised_def opposite_def
          fits_viewport_of isNotFittingOnBottomButCanOnTop_def)
  next
    case 4
    then show ?thesis
      by (simp add: GetVisiblePosition_def resolveSide_def recognised_def opposite_def
          fits_viewport_of isNotFittingOnLeftButCanOnRight_def)
  qed
qed

text \<open>
  Claim C1.  For every input, \<open>GetVisiblePosition\<close> computes the reference resolver
  \<open>resolveSide\<close> on the viewport the source reads, with the four fit predicates
  \<open>anchor.top \<ge> overlay.height\<close>, \<open>overlay.height \<le> viewport.height - anchor.bottom\<close>,
  \<open>anchor.left \<ge> overlay.width\<close> and \<open>overlay.width \<le> viewport.width - anchor.right\<close>.
  For a recognised preferred side the result is the opposite side exactly when the
  preferred side does not fit and the opposite one does, and is the preferred side
  otherwise (also when neither fits); any other preferred value gives \<open>top\<close>.
\<close>

theorem GetVisiblePosition_resolveSide:
  "(let result = GetVisiblePosition window documentElement overlayRect anchorRect preferred;
        viewport = viewport_of window documentElement
    in result = resolveSide overlayRect anchorRect viewport preferred
     \<and> fits overlayRect anchorRect viewport ''top'' =
         (top_edge anchorRect \<ge> height overlayRect)
     \<and> fits overlayRect anchorRect viewport ''bottom'' =
         (height overlayRect \<le> viewport_height viewport - bottom anchorRect)
     \<and> fits overlayRect anchorRect viewport ''left'' =
         (left anchorRect \<ge> width overlayRect)
     \<and> fits overlayRect anchorRect viewport ''right'' =
         (width overlayRect \<le> viewport_width viewport - right anchorRect)
     \<and> (recognised preferred \<longrightarrow>
          (result = opposite preferred) =
            (\<not> fits overlayRect anchorRect viewport preferred \<and>
             fits overlayRect anchorRect viewport (opposite preferred)))
     \<and> (recognised preferred \<longrightarrow>
          \<not> (\<not> fits overlayRect anchorRect viewport preferred \<and>
             fits overlayRect anchorRect viewport (opposite preferred)) \<longrightarrow>
          result = preferred)
     \<and> (\<not> recognised preferred \<longrightarrow> result = ''top''))"
proof -
  define result where
    "result = GetVisiblePosition window documentElement overlayRect anchorRect preferred"
  define viewport where "viewport = viewport_of window documentElement"
  have r: "result = resolveSide overlayRect anchorRect viewport preferred"
    unfolding result_def viewport_def by (rule GetVisiblePosition_refines)
  have f: "fits overlayRect anchorRect viewport ''top'' =
             (top_edge anchorRect \<ge> height overlayRect)"
    "fits overlayRect anchorRect viewport ''bottom'' =
       (height overlayRect \<le> viewport_height viewport - bottom anchorRect)"
    "fits overlayRect anchorRect viewport ''left'' =
       (left anchorRect \<ge> width overlayRect)"
    "fits overlayRect anchorRect viewport ''right'' =
       (width overlayRect \<le> viewport_width viewport - right anchorRect)"
    by (simp_all add: fits_def fits_top_def fits_bottom_def fits_left_def fits_right_def)
  have flip: "(result = opposite preferred) =
          (\<not> fits overlayRect anchorRect viewport preferred \<and>
           fits overlayRect anchorRect viewport (opposite preferred))"
    if "recognised preferred"
    using that opposite_differs [OF that] by (auto simp: r resolveSide_def)
  have keep: "result = preferred"
    if "recognised preferred"
      and "\<not> (\<not> fits overlayRect anchorRect viewport preferred \<and>
              fits overlayRect anchorRect viewport (opposite preferred))"
    using that by (auto simp: r resolveSide_def)
  have dflt: "result = ''top''" if "\<not> recognised preferred"
    using that by (simp add: r resolveSide_def)
  from r f flip keep dflt show ?thesis
    unfolding Let_def result_def [symmetric] viewport_def [symmetric] by blast
qed

text \<open>
  The flip example of the specification: the anchor spans 10 to 50, the overlay is 100
  high, the visible area 800 high; \<open>top\<close> does not fit, \<open>bottom\<close> does.
\<close>

theorem GetVisiblePosition_resolveSide_witness:
  "recognised ''top''
   \<and> GetVisiblePosition \<lparr>innerWidth = 0, innerHeight = (800::int)\<rparr>
        \<lparr>clientWidth = 1000, clientHeight = 600\<rparr>
        \<lparr>top_edge = 0, right = 200, bottom = 100, left = 0, width = 200, height = 100\<rparr>
        \<lparr>top_edge = 10, right = 300, bottom = 50, left = 100, width = 200, height = 40\<rparr>
        ''top'' = ''bottom''
   \<and> \<not> recognised ''center''
   \<and> GetVisiblePosition \<lparr>innerWidth = 0, innerHeight = (800::int)\<rparr>
        \<lparr>clientWidth = 1000, clientHeight = 600\<rparr>
        \<lparr>top_edge = 0, right = 200, bottom = 100, left = 0, width = 200, height = 100\<rparr>
        \<lparr>top_edge = 10, right = 300, bottom = 50, left = 100, width = 200, height = 40\<rparr>
        ''center'' = ''top''"
  using GetVisiblePosition_resolveSide
      [of "\<lparr>innerWidth = 0, innerHeight = (800::int)\<rparr>"
          "\<lparr>clientWidth = 1000, clientHeight = 600\<rparr>"
          "\<lparr>top_edge = 0, right = 200, bottom = 100, left = 0, width = 200, height = 100\<rparr>"
          "\<lparr>top_edge = 10, right = 300, bottom = 50, left = 100, width = 200, height = 40\<rparr>"
          "''top''"]
    GetVisiblePosition_resolveSide
      [of "\<lparr>innerWidth = 0, innerHeight = (800::int)\<rparr>"
          "\<lparr>clientWidth = 1000, clientHeight = 600\<rparr>"
          "\<lparr>top_edge = 0, right = 200, bottom = 100, left = 0, width = 200, height = 100\<rparr>"
          "\<lparr>top_edge = 10, right = 300, bottom = 50, left = 100, width = 200, height = 40\<rparr>"
          "''center''"]
  by (simp add: Let_def recognised_def opposite_def viewport_of_def js_or_def
      resolveSide_def fits_def fits_top_def fits_bottom_def)

text \<open>
  Claim C8.  The result is a function of the two rectangles, the preferred side and the
  viewport size alone: two calls with the same rectangles and preferred side, made in
  browser states that give the same viewport size, return the same side.  The browser
  objects are the only thing the source reads beside its arguments, and it reads them
  only to obtain that size.
\<close>

theorem GetVisiblePosition_deterministic:
  "viewport_of window1 documentElement1 = viewport_of window2 documentElement2 \<Longrightarrow>
   GetVisiblePosition window1 documentElement1 overlayRect anchorRect preferred =
   GetVisiblePosition window2 documentElement2 overlayRect anchorRect preferred"
  by (simp add: GetVisiblePosition_refines)

theorem GetVisiblePosition_deterministic_witness:
  "viewport_of \<lparr>innerWidth = 0, innerHeight = (800::int)\<rparr>
               \<lparr>clientWidth = 1000, clientHeight = 600\<rparr> =
   viewport_of \<lparr>innerWidth = 1000, innerHeight = (800::int)\<rparr>
               \<lparr>clientWidth = 0, clientHeight = 0\<rparr>
   \<and> GetVisiblePosition \<lparr>innerWidth = 0, innerHeight = (800::int)\<rparr>
        \<lparr>clientWidth = 1000, clientHeight = 600\<rparr>
        \<lparr>top_edge = 0, right = 200, bottom = 100, left = 0, width = 200, height = 100\<rparr>
        \<lparr>top_edge = 10, right = 300, bottom = 50, left = 100, width = 200, height = 40\<rparr>
        ''top'' =
     GetVisiblePosition \<lparr>innerWidth = 1000, innerHeight = (800::int)\<rparr>
        \<lparr>clientWidth = 0, clientHeight = 0\<rparr>
        \<lparr>top_edge = 0, right = 200, bottom = 100, left = 0, width = 200, height = 100\<rparr>
        \<lparr>top_edge = 10, right = 300, bottom = 50, left = 100, width = 200, height = 40\<rparr>
        ''top''"
proof -
  have h: "viewport_of \<lparr>innerWidth = 0, innerHeight = (800::int)\<rparr>
               \<lparr>clientWidth = 1000, clientHeight = 600\<rparr> =
           viewport_of \<lparr>innerWidth = 1000, innerHeight = (800::int)\<rparr>
               \<lparr>clientWidth = 0, clientHeight = 0\<rparr>"
    by (simp add: viewport_of_def js_or_def)
  from h GetVisiblePosition_deterministic [OF h] show ?thesis
    by blast
qed

section \<open>Properties of the menu controller\<close>

subsection \<open>What each function adds to the log and writes to the state\<close>

lemma calls_call: "calls (call c run) = calls run @ [c]"
  by (simp add: call_def)

lemma next_state_call: "next_state (call c run) = next_state run"
  by (simp add: call_def)

lemma calls_setShowMenu: "calls (setShowMenu v run) = calls run"
  by (simp add: setShowMenu_def)

lemma next_state_setShowMenu:
  "next_state (setShowMenu v run) = (next_state run) \<lparr> showMenu := v \<rparr>"
  by (simp add: setShowMenu_def)

lemma calls_setCurrentFocusedOption: "calls (setCurrentFocusedOption v run) = calls run"
  by (simp add: setCurrentFocusedOption_def)

lemma next_state_setCurrentFocusedOption:
  "next_state (setCurrentFocusedOption v run) =
     (next_state run) \<lparr> currentFocusedOption := v \<rparr>"
  by (simp add: setCurrentFocusedOption_def)

lemma calls_toggleMenu:
  "calls (toggleMenu props open run) = calls run @ toggleMenu_calls props open"
  by (simp add: toggleMenu_def toggleMenu_calls_def Let_def calls_call calls_setShowMenu)

lemma next_state_toggleMenu:
  "next_state (toggleMenu props open run) = (next_state run) \<lparr> showMenu := open \<rparr>"
  by (simp add: toggleMenu_def Let_def next_state_call next_state_setShowMenu)

lemma calls_selectOption:
  "calls (selectOption props option run) = calls run @ selectOption_calls props option"
  by (simp add: selectOption_def selectOption_calls_def Let_def calls_call calls_toggleMenu)

lemma next_state_selectOption:
  "next_state (selectOption props option run) =
     (if closeMenuOnSelect props option then (next_state run) \<lparr> showMenu := False \<rparr>
      else next_state run)"
  by (simp add: selectOption_def Let_def next_state_call next_state_toggleMenu)

lemma calls_consume:
  "calls (consume run) = calls run @ [Call_preventDefault, Call_stopPropagation]"
  by (simp add: consume_def calls_call)

lemma next_state_consume: "next_state (consume run) = next_state run"
  by (simp add: consume_def next_state_call)

lemma next_state_hoverOption:
  "next_state (hoverOption option run) =
     (next_state run) \<lparr> currentFocusedOption := Some option \<rparr>"
  by (simp add: hoverOption_def next_state_setCurrentFocusedOption)

lemma handleOnKeyDown_Escape:
  "handleOnKeyDown props state Escape run =
     (if showMenu state then toggleMenu props True run else run)"
  by (simp add: handleOnKeyDown_def)

lemma handleOnKeyDown_Tab:
  "handleOnKeyDown props state Tab run =
     (if showMenu state then toggleMenu props True run else run)"
  by (simp add: handleOnKeyDown_def Tab_def Escape_def Enter_def Space_def ArrowUp_def
      ArrowDown_def Home_def End_def)

lemma handleOnKeyDown_Enter:
  "handleOnKeyDown props state Enter run =
     (let run2 = (case currentFocusedOption state of
                    Some focused \<Rightarrow> selectOption props focused (consume run)
                  | None \<Rightarrow> consume run)
      in if (currentFocusedOption state = None \<and> showMenu state) \<or> \<not> showMenu state
         then toggleMenu props (\<not> showMenu state) run2
         else run2)"
  by (simp add: handleOnKeyDown_def Enter_def Escape_def Let_def)

subsection \<open>toggleMenu\<close>

text \<open>
  Claim C4.  Every call \<open>toggleMenu(open)\<close> sets \<open>showMenu\<close> to \<open>open\<close> and calls the
  callback chosen by the argument alone: \<open>onMenuOpen\<close> for \<open>true\<close>, \<open>onMenuClose\<close> for
  \<open>false\<close>, whatever the state was before (a callback prop that is not given is not
  called).  With both callbacks given exactly one callback is called; two calls
  \<open>toggleMenu(true)\<close> in a row call \<open>onMenuOpen\<close> exactly twice.
\<close>

theorem toggleMenu_level_triggered:
  "showMenu (next_state (toggleMenu props open run)) = open
   \<and> currentFocusedOption (next_state (toggleMenu props open run)) =
       currentFocusedOption (next_state run)
   \<and> new_calls run (toggleMenu props True run) =
       Call_toggleMenu True # (if onMenuOpen props then [Call_onMenuOpen] else [])
   \<and> new_calls run (toggleMenu props False run) =
       Call_toggleMenu False # (if onMenuClose props then [Call_onMenuClose] else [])
   \<and> (onMenuOpen props \<and> onMenuClose props \<longrightarrow>
        filter is_callback (new_calls run (toggleMenu props open run)) =
          [if open then Call_onMenuOpen else Call_onMenuClose])
   \<and> new_calls run (toggleMenu props True (toggleMenu props True run)) =
       Call_toggleMenu True # (if onMenuOpen props then [Call_onMenuOpen] else []) @
       Call_toggleMenu True # (if onMenuOpen props then [Call_onMenuOpen] else [])
   \<and> (onMenuOpen props \<longrightarrow>
        count_list (new_calls run (toggleMenu props True (toggleMenu props True run)))
          Call_onMenuOpen = 2)
   \<and> showMenu (next_state (toggleMenu props True (toggleMenu props True run))) = True"
  by (simp add: new_calls_def calls_toggleMenu next_state_toggleMenu toggleMenu_calls_def)

text \<open>The menu is already open; \<open>toggleMenu(true)\<close> is called twice.\<close>

theorem toggleMenu_level_triggered_witness:
  "onMenuOpen (ex_props [ex_A]) \<and> onMenuClose (ex_props [ex_A])
   \<and> showMenu (next_state (start (focused_on True None)))
   \<and> filter is_callback
        (new_calls (start (focused_on True None))
           (toggleMenu (ex_props [ex_A]) True (start (focused_on True None)))) =
       [Call_onMenuOpen]
   \<and> count_list
        (new_calls (start (focused_on True None))
           (toggleMenu (ex_props [ex_A]) True
              (toggleMenu (ex_props [ex_A]) True (start (focused_on True None)))))
        Call_onMenuOpen = 2"
  using toggleMenu_level_triggered
      [of "ex_props [ex_A]" True "start (focused_on True None) :: string Run"]
  by (simp add: ex_props_def start_def focused_on_def)

subsection \<open>selectOption\<close>

lemma ex_value:
  "value (listOption ex_A) = ''a''" "value (listOption ex_B) = ''b''"
  "value (listOption ex_C) = ''c''" "value (listOption ex_A2) = ''a''"
  "value (listOption ex_X) = ''x''" "value (listOption ex_Y) = ''y''"
  by (simp_all add: listOption_def ex_A_def ex_B_def ex_C_def ex_A2_def ex_X_def ex_Y_def)

text \<open>
  Claim C6.  \<open>selectOption(option)\<close> always calls the selection callback with that option
  (when the prop is given) and then calls \<open>toggleMenu(false)\<close> exactly when the
  close-on-select policy holds for the option: always for \<open>true\<close>, never for \<open>false\<close>,
  and as the predicate says for a function; the default of the prop is \<open>true\<close>.
\<close>

theorem selectOption_close_policy:
  "new_calls run (selectOption props option run) =
     Call_selectOption option #
       (if onOptionSelect props then [Call_onOptionSelect option] else []) @
       (if closeMenuOnSelect props option
        then Call_toggleMenu False # (if onMenuClose props then [Call_onMenuClose] else [])
        else [])
   \<and> (Call_toggleMenu False \<in> set (new_calls run (selectOption props option run))) =
       closeMenuOnSelect props option
   \<and> closeMenuOnSelect props option =
       (case closeOnSelect props of
          None \<Rightarrow> True
        | Some (Flag b) \<Rightarrow> b
        | Some (Predicate p) \<Rightarrow> p option)
   \<and> closeOnSelect_prop (props \<lparr> closeOnSelect := None \<rparr>) = Always
   \<and> closeMenuOnSelect (props \<lparr> closeOnSelect := Some Always \<rparr>) option
   \<and> \<not> closeMenuOnSelect (props \<lparr> closeOnSelect := Some Never \<rparr>) option
   \<and> closeMenuOnSelect (props \<lparr> closeOnSelect := Some (Predicate p) \<rparr>) option = p option
   \<and> showMenu (next_state (selectOption props option run)) =
       (if closeMenuOnSelect props option then False else showMenu (next_state run))"
  by (simp add: new_calls_def calls_selectOption selectOption_calls_def toggleMenu_calls_def
      next_state_selectOption closeMenuOnSelect_def closeOnSelect_prop_def
      split: option.split CloseOnSelect.split)

text \<open>
  The policy is the predicate \<open>option.value === 'x'\<close> and the menu is open: selecting
  \<open>y\<close> leaves it open, selecting \<open>x\<close> closes it.
\<close>

theorem selectOption_close_policy_witness:
  "showMenu (next_state
     (selectOption
        ((ex_props [ex_X, ex_Y]) \<lparr> closeOnSelect := Some (Predicate (\<lambda>option. value option = ''x'')) \<rparr>)
        (listOption ex_Y) (start (focused_on True None))))
   \<and> new_calls (start (focused_on True None))
        (selectOption
           ((ex_props [ex_X, ex_Y]) \<lparr> closeOnSelect := Some (Predicate (\<lambda>option. value option = ''x'')) \<rparr>)
           (listOption ex_Y) (start (focused_on True None))) =
       [Call_selectOption (listOption ex_Y), Call_onOptionSelect (listOption ex_Y)]
   \<and> \<not> showMenu (next_state
     (selectOption
        ((ex_props [ex_X, ex_Y]) \<lparr> closeOnSelect := Some (Predicate (\<lambda>option. value option = ''x'')) \<rparr>)
        (listOption ex_X) (start (focused_on True None))))
   \<and> new_calls (start (focused_on True None))
        (selectOption
           ((ex_props [ex_X, ex_Y]) \<lparr> closeOnSelect := Some (Predicate (\<lambda>option. value option = ''x'')) \<rparr>)
           (listOption ex_X) (start (focused_on True None))) =
       [Call_selectOption (listOption ex_X), Call_onOptionSelect (listOption ex_X),
        Call_toggleMenu False, Call_onMenuClose]"
  using selectOption_close_policy
      [of "start (focused_on True None)"
          "(ex_props [ex_X, ex_Y])
             \<lparr> closeOnSelect := Some (Predicate (\<lambda>option. value option = ''x'')) \<rparr>"
          "listOption ex_Y"]
    selectOption_close_policy
      [of "start (focused_on True None)"
          "(ex_props [ex_X, ex_Y])
             \<lparr> closeOnSelect := Some (Predicate (\<lambda>option. value option = ''x'')) \<rparr>"
          "listOption ex_X"]
  by (simp add: ex_value ex_props_def start_def focused_on_def)

subsection \<open>Key dispatch\<close>

text \<open>
  Claim C3.  With the key \<open>Escape\<close> or \<open>Tab\<close>, \<open>handleOnKeyDown\<close> does nothing when the
  menu is closed.  When the menu is open it calls \<open>toggleMenu(showMenu)\<close>, that is
  \<open>toggleMenu(true)\<close>: \<open>onMenuOpen\<close> is called again (when given), \<open>onMenuClose\<close> is not
  called, and \<open>showMenu\<close> stays true.  In both cases the menu is as open after the key as
  it was before.
\<close>

theorem Escape_Tab_never_close:
  assumes "key = Escape \<or> key = Tab"
  shows "(\<not> showMenu state \<longrightarrow> handleOnKeyDown props state key run = run)
   \<and> (showMenu state \<longrightarrow>
        handleOnKeyDown props state key run = toggleMenu props (showMenu state) run
      \<and> handleOnKeyDown props state key run = toggleMenu props True run
      \<and> new_calls run (handleOnKeyDown props state key run) =
          Call_toggleMenu True # (if onMenuOpen props then [Call_onMenuOpen] else [])
      \<and> Call_onMenuClose \<notin> set (new_calls run (handleOnKeyDown props state key run))
      \<and> Call_toggleMenu False \<notin> set (new_calls run (handleOnKeyDown props state key run))
      \<and> showMenu (next_state (handleOnKeyDown props state key run)) = True)
   \<and> showMenu (next_state (handleOnKeyDown props state key (start state))) = showMenu state"
proof -
  have eq: "handleOnKeyDown props state key r =
              (if showMenu state then toggleMenu props True r else r)" for r
    using assms handleOnKeyDown_Escape [of props state r]
      handleOnKeyDown_Tab [of props state r] by blast
  show ?thesis
    by (simp add: eq new_calls_def calls_toggleMenu toggleMenu_calls_def
        next_state_toggleMenu start_def)
qed

theorem Escape_Tab_never_close_witness:
  "showMenu (focused_on True None)
   \<and> new_calls (start (focused_on True None))
        (handleOnKeyDown (ex_props [ex_A]) (focused_on True None) Escape
           (start (focused_on True None))) =
       [Call_toggleMenu True, Call_onMenuOpen]
   \<and> showMenu (next_state
        (handleOnKeyDown (ex_props [ex_A]) (focused_on True None) Escape
           (start (focused_on True None))))
   \<and> new_calls (start (focused_on True None))
        (handleOnKeyDown (ex_props [ex_A]) (focused_on True None) Tab
           (start (focused_on True None))) =
       [Call_toggleMenu True, Call_onMenuOpen]
   \<and> handleOnKeyDown (ex_props [ex_A]) (focused_on False None) Tab
        (start (focused_on False None)) = start (focused_on False None)"
  using Escape_Tab_never_close
      [of Escape "focused_on True None" "ex_props [ex_A]"
          "start (focused_on True None)"]
    Escape_Tab_never_close
      [of Tab "focused_on True None" "ex_props [ex_A]"
          "start (focused_on True None)"]
    Escape_Tab_never_close
      [of Tab "focused_on False None" "ex_props [ex_A]"
          "start (focused_on False None)"]
  by (simp add: ex_props_def focused_on_def handleOnKeyDown_Escape handleOnKeyDown_Tab
      new_calls_def calls_toggleMenu toggleMenu_calls_def next_state_toggleMenu start_def)

text \<open>
  Claim C5.  With the key \<open>Enter\<close>, \<open>handleOnKeyDown\<close> consumes the event
  (\<open>preventDefault\<close>, \<open>stopPropagation\<close>); it calls \<open>selectOption\<close> with the focused
  option exactly when there is one; and after that it calls \<open>toggleMenu(!showMenu)\<close>
  exactly when the menu is closed, or open with no focused option.  Open with no focus:
  no \<open>selectOption\<close>, and \<open>toggleMenu(false)\<close> closes the menu.  Open with a focus: only
  the \<open>selectOption\<close> call, whose policy may close the menu.
\<close>

theorem Enter_select_and_toggle:
  "(let result = handleOnKeyDown props state Enter run;
        focused = currentFocusedOption state;
        shown = showMenu state
    in new_calls run result =
         [Call_preventDefault, Call_stopPropagation] @
         (case focused of None \<Rightarrow> [] | Some option \<Rightarrow> selectOption_calls props option) @
         (if (focused = None \<and> shown) \<or> \<not> shown
          then toggleMenu_calls props (\<not> shown) else [])
     \<and> filter is_selectOption (new_calls run result) =
         (case focused of None \<Rightarrow> [] | Some option \<Rightarrow> [Call_selectOption option])
     \<and> (focused = None \<and> shown \<longrightarrow>
          result = toggleMenu props False (consume run)
        \<and> new_calls run result =
            [Call_preventDefault, Call_stopPropagation, Call_toggleMenu False] @
            (if onMenuClose props then [Call_onMenuClose] else [])
        \<and> showMenu (next_state result) = False)
     \<and> (focused \<noteq> None \<and> shown \<longrightarrow>
          result = selectOption props (the focused) (consume run))
     \<and> (focused = None \<and> \<not> shown \<longrightarrow>
          result = toggleMenu props True (consume run))
     \<and> (focused \<noteq> None \<and> \<not> shown \<longrightarrow>
          result = toggleMenu props True (selectOption props (the focused) (consume run))))"
  by (cases "currentFocusedOption state")
    (simp_all add: handleOnKeyDown_Enter Let_def new_calls_def calls_toggleMenu
      calls_selectOption calls_consume toggleMenu_calls_def selectOption_calls_def
      next_state_toggleMenu)

text \<open>The menu is open and nothing is focused: \<open>Enter\<close> closes it.\<close>

theorem Enter_select_and_toggle_witness:
  "currentFocusedOption (focused_on True None :: string MenuState) = None
   \<and> showMenu (focused_on True None :: string MenuState)
   \<and> new_calls (start (focused_on True None))
        (handleOnKeyDown (ex_props [ex_A]) (focused_on True None) Enter
           (start (focused_on True None))) =
       [Call_preventDefault, Call_stopPropagation, Call_toggleMenu False, Call_onMenuClose]
   \<and> \<not> showMenu (next_state
        (handleOnKeyDown (ex_props [ex_A]) (focused_on True None) Enter
           (start (focused_on True None))))
   \<and> new_calls (start (focused_on True (Some (listOption ex_A))))
        (handleOnKeyDown ((ex_props [ex_A]) \<lparr> closeOnSelect := Some Never \<rparr>)
           (focused_on True (Some (listOption ex_A))) Enter
           (start (focused_on True (Some (listOption ex_A))))) =
       [Call_preventDefault, Call_stopPropagation, Call_selectOption (listOption ex_A),
        Call_onOptionSelect (listOption ex_A)]"
  using Enter_select_and_toggle
      [of "ex_props [ex_A]" "focused_on True None" "start (focused_on True None)"]
    Enter_select_and_toggle
      [of "(ex_props [ex_A]) \<lparr> closeOnSelect := Some Never \<rparr>"
          "focused_on True (Some (listOption ex_A))"
          "start (focused_on True (Some (listOption ex_A)))"]
  by (simp add: Let_def ex_props_def focused_on_def handleOnKeyDown_Enter new_calls_def
      calls_toggleMenu calls_selectOption calls_consume toggleMenu_calls_def
      selectOption_calls_def next_state_toggleMenu closeMenuOnSelect_def
      closeOnSelect_prop_def start_def)

text \<open>
  Claim C9.  \<open>Enter\<close> while the menu is closed and an option is focused: the handler
  first calls \<open>selectOption\<close> with the focused option (the selection callback, and with
  a policy that holds also \<open>toggleMenu(false)\<close> and the close callback), and then, since
  the \<open>showMenu\<close> it reads is still the closed one of this render, \<open>toggleMenu(true)\<close>.
  The open callback is called last and the next state is open.
\<close>

theorem Enter_closed_with_focus:
  assumes "\<not> showMenu state" and "currentFocusedOption state = Some option"
  shows "handleOnKeyDown props state Enter run =
           toggleMenu props True (selectOption props option (consume run))
   \<and> new_calls run (handleOnKeyDown props state Enter run) =
       [Call_preventDefault, Call_stopPropagation, Call_selectOption option] @
       (if onOptionSelect props then [Call_onOptionSelect option] else []) @
       (if closeMenuOnSelect props option
        then Call_toggleMenu False # (if onMenuClose props then [Call_onMenuClose] else [])
        else []) @
       Call_toggleMenu True # (if onMenuOpen props then [Call_onMenuOpen] else [])
   \<and> showMenu (next_state (handleOnKeyDown props state Enter run)) = True
   \<and> (onMenuOpen props \<longrightarrow>
        last (calls (handleOnKeyDown props state Enter run)) = Call_onMenuOpen)
   \<and> (closeOnSelect props = None \<and> onOptionSelect props \<and> onMenuClose props \<and>
      onMenuOpen props \<longrightarrow>
        new_calls run (handleOnKeyDown props state Enter run) =
          [Call_preventDefault, Call_stopPropagation, Call_selectOption option,
           Call_onOptionSelect option, Call_toggleMenu False, Call_onMenuClose,
           Call_toggleMenu True, Call_onMenuOpen])"
  using assms
  by (simp add: handleOnKeyDown_Enter Let_def new_calls_def calls_toggleMenu
      calls_selectOption calls_consume toggleMenu_calls_def selectOption_calls_def
      next_state_toggleMenu closeMenuOnSelect_def closeOnSelect_prop_def)

theorem Enter_closed_with_focus_witness:
  "\<not> showMenu (focused_on False (Some (listOption ex_A)))
   \<and> currentFocusedOption (focused_on False (Some (listOption ex_A))) =
       Some (listOption ex_A)
   \<and> closeOnSelect (ex_props [ex_A]) = None
   \<and> new_calls (start (focused_on False (Some (listOption ex_A))))
        (handleOnKeyDown (ex_props [ex_A]) (focused_on False (Some (listOption ex_A))) Enter
           (start (focused_on False (Some (listOption ex_A))))) =
       [Call_preventDefault, Call_stopPropagation, Call_selectOption (listOption ex_A),
        Call_onOptionSelect (listOption ex_A), Call_toggleMenu False, Call_onMenuClose,
        Call_toggleMenu True, Call_onMenuOpen]
   \<and> showMenu (next_state
        (handleOnKeyDown (ex_props [ex_A]) (focused_on False (Some (listOption ex_A))) Enter
           (start (focused_on False (Some (listOption ex_A))))))"
proof -
  have h: "\<not> showMenu (focused_on False (Some (listOption ex_A)))"
    "currentFocusedOption (focused_on False (Some (listOption ex_A))) =
       Some (listOption ex_A)"
    by (simp_all add: focused_on_def)
  have p: "closeOnSelect (ex_props [ex_A]) = None" "onOptionSelect (ex_props [ex_A])"
    "onMenuClose (ex_props [ex_A])" "onMenuOpen (ex_props [ex_A])"
    by (simp_all add: ex_props_def)
  from Enter_closed_with_focus [OF h, of "ex_props [ex_A]"
      "start (focused_on False (Some (listOption ex_A)))"] h p
  show ?thesis by blast
qed

subsection \<open>Focus navigation\<close>

lemma findIndex_from_takeWhile:
  "findIndex_from p xs k =
     (if \<exists>x\<in>set xs. p x then k + int (length (takeWhile (\<lambda>x. \<not> p x) xs)) else - 1)"
  by (induction xs arbitrary: k) auto

lemma findIndex_takeWhile:
  "findIndex p xs =
     (if \<exists>x\<in>set xs. p x then int (length (takeWhile (\<lambda>x. \<not> p x) xs)) else - 1)"
  by (simp add: findIndex_def findIndex_from_takeWhile)

lemma takeWhile_stops: "\<exists>x\<in>set xs. p x \<Longrightarrow> length (takeWhile (\<lambda>x. \<not> p x) xs) < length xs"
  by (induction xs) auto

lemma findIndex_range: "- 1 \<le> findIndex p xs \<and> findIndex p xs < int (length xs)"
  using takeWhile_stops [of xs p] by (auto simp: findIndex_takeWhile)

lemma findIndex_first:
  assumes "findIndex p xs \<noteq> - 1"
  shows "0 \<le> findIndex p xs" and "nat (findIndex p xs) < length xs"
    and "p (xs ! nat (findIndex p xs))"
    and "\<forall>k < nat (findIndex p xs). \<not> p (xs ! k)"
proof -
  let ?n = "length (takeWhile (\<lambda>x. \<not> p x) xs)"
  from assms have ex: "\<exists>x\<in>set xs. p x" and eq: "findIndex p xs = int ?n"
    by (auto simp: findIndex_takeWhile split: if_splits)
  from ex have lt: "?n < length xs" by (rule takeWhile_stops)
  show "0 \<le> findIndex p xs" by (simp add: eq)
  show "nat (findIndex p xs) < length xs" using lt by (simp add: eq)
  show "p (xs ! nat (findIndex p xs))"
    using nth_length_takeWhile [OF lt] by (simp add: eq)
  show "\<forall>k < nat (findIndex p xs). \<not> p (xs ! k)"
  proof (intro allI impI)
    fix k assume "k < nat (findIndex p xs)"
    then have k: "k < ?n" by (simp add: eq)
    then have "takeWhile (\<lambda>x. \<not> p x) xs ! k \<in> set (takeWhile (\<lambda>x. \<not> p x) xs)"
      by simp
    then have "\<not> p (takeWhile (\<lambda>x. \<not> p x) xs ! k)"
      by (blast dest: set_takeWhileD)
    then show "\<not> p (xs ! k)" using k by (simp add: takeWhile_nth)
  qed
qed

lemma findIndex_no_match: "(\<forall>x\<in>set xs. \<not> p x) \<Longrightarrow> findIndex p xs = - 1"
  by (simp add: findIndex_takeWhile)

lemma js_index_in_range: "0 \<le> i \<Longrightarrow> i < int (length xs) \<Longrightarrow> js_index xs i = Some (xs ! nat i)"
  by (simp add: js_index_def)

lemma currentFocusedIndex_range:
  "- 1 \<le> currentFocusedIndex props state \<and>
   currentFocusedIndex props state < int (length (enabledOptions props))"
  using findIndex_range by (auto simp: currentFocusedIndex_def split: option.split)

lemma type_actionMenuOptions: "option \<in> set (actionMenuOptions props) \<Longrightarrow> type option = ''list''"
  by (auto simp: actionMenuOptions_def listOption_def)

lemma isOptionDisabled_list:
  "type option = ''list'' \<Longrightarrow> isOptionDisabled (Some option) = (disabled option = Some True)"
  by (cases "disabled option") (simp_all add: isOptionDisabled_def)

lemma enabledOptions_not_disabled:
  "enabledOptions props =
     filter (\<lambda>option. disabled option \<noteq> Some True) (actionMenuOptions props)"
  unfolding enabledOptions_def
  by (rule filter_cong) (simp_all add: type_actionMenuOptions isOptionDisabled_list)

lemma enabledOptions_enabled:
  "option \<in> set (enabledOptions props) \<Longrightarrow> \<not> isOptionDisabled (Some option)"
  by (simp add: enabledOptions_def)

lemma smod_as_mod: "0 \<le> a \<Longrightarrow> 0 < b \<Longrightarrow> (a::int) smod b = a mod b"
  by (simp add: smod_mod_positive)

text \<open>What each direction writes, when some option is enabled.\<close>

lemma focusOption_empty:
  "enabledOptions props = [] \<Longrightarrow> focusOption props state direction run = run"
  by (simp add: focusOption_def)

lemma focusOption_first:
  assumes "enabledOptions props \<noteq> []"
  shows "focusOption props state ''first'' run =
           setCurrentFocusedOption (Some (enabledOptions props ! 0)) run"
  using assms by (simp add: focusOption_def js_index_def)

lemma focusOption_last:
  assumes "enabledOptions props \<noteq> []"
  shows "focusOption props state ''last'' run =
           setCurrentFocusedOption
             (Some (enabledOptions props ! (length (enabledOptions props) - 1))) run"
proof -
  from assms have "0 < length (enabledOptions props)" by simp
  then have "nat (int (length (enabledOptions props)) - 1) = length (enabledOptions props) - 1"
    by linarith
  with assms show ?thesis by (simp add: focusOption_def js_index_def)
qed

lemma focusOption_up:
  assumes "enabledOptions props \<noteq> []"
  shows "focusOption props state ''up'' run =
           setCurrentFocusedOption
             (Some (if currentFocusedIndex props state > 0
                    then enabledOptions props ! nat (currentFocusedIndex props state - 1)
                    else enabledOptions props ! (length (enabledOptions props) - 1))) run"
proof -
  from assms have pos: "0 < length (enabledOptions props)" by simp
  then have l: "nat (int (length (enabledOptions props)) - 1) = length (enabledOptions props) - 1"
    by linarith
  have r: "currentFocusedIndex props state < int (length (enabledOptions props))"
    using currentFocusedIndex_range by blast
  show ?thesis
    using assms pos l r by (simp add: focusOption_def js_index_def)
qed

lemma focusOption_down:
  assumes "enabledOptions props \<noteq> []"
  shows "focusOption props state ''down'' run =
           setCurrentFocusedOption
             (Some (enabledOptions props !
                nat ((currentFocusedIndex props state + 1) mod
                     int (length (enabledOptions props))))) run"
proof -
  from assms have pos: "0 < int (length (enabledOptions props))" by simp
  have nn: "0 \<le> currentFocusedIndex props state + 1"
    using currentFocusedIndex_range [of props state] by linarith
  have m: "(currentFocusedIndex props state + 1) smod int (length (enabledOptions props)) =
           (currentFocusedIndex props state + 1) mod int (length (enabledOptions props))"
    using nn pos by (rule smod_as_mod)
  have "0 \<le> (currentFocusedIndex props state + 1) mod int (length (enabledOptions props))"
    and "(currentFocusedIndex props state + 1) mod int (length (enabledOptions props))
           < int (length (enabledOptions props))"
    using pos by simp_all
  then show ?thesis
    using assms by (simp add: focusOption_def js_index_def m)
qed

lemma focusOption_default:
  assumes "direction \<noteq> ''up''" "direction \<noteq> ''down''" "direction \<noteq> ''last''"
  shows "focusOption props state direction run = focusOption props state ''first'' run"
  using assms by (simp add: focusOption_def)

lemma focusOption_lands_enabled:
  assumes "enabledOptions props \<noteq> []"
  shows "\<exists>option\<in>set (enabledOptions props).
           focusOption props state direction run = setCurrentFocusedOption (Some option) run"
proof -
  let ?es = "enabledOptions props"
  from assms have pos: "0 < length ?es" by simp
  have r: "currentFocusedIndex props state < int (length ?es)"
    using currentFocusedIndex_range by blast
  consider "direction = ''up''" | "direction = ''down''" | "direction = ''last''"
    | "direction \<noteq> ''up''" "direction \<noteq> ''down''" "direction \<noteq> ''last''"
    by blast
  then show ?thesis
  proof cases
    case 1
    have "nat (currentFocusedIndex props state - 1) < length ?es" using r pos by linarith
    then have "?es ! nat (currentFocusedIndex props state - 1) \<in> set ?es"
      and "?es ! (length ?es - 1) \<in> set ?es"
      using pos by simp_all
    then show ?thesis
      unfolding 1 focusOption_up [OF assms] by (auto split: if_splits)
  next
    case 2
    have "(currentFocusedIndex props state + 1) mod int (length ?es) < int (length ?es)"
      using pos by simp
    moreover have "0 \<le> (currentFocusedIndex props state + 1) mod int (length ?es)"
      using pos by simp
    ultimately have "nat ((currentFocusedIndex props state + 1) mod int (length ?es)) < length ?es"
      by linarith
    then have "?es ! nat ((currentFocusedIndex props state + 1) mod int (length ?es)) \<in> set ?es"
      by simp
    then show ?thesis
      unfolding 2 focusOption_down [OF assms] by blast
  next
    case 3
    have "?es ! (length ?es - 1) \<in> set ?es" using pos by simp
    then show ?thesis
      unfolding 3 focusOption_last [OF assms] by blast
  next
    case 4
    have "?es ! 0 \<in> set ?es" using pos by simp
    then show ?thesis
      unfolding focusOption_default [OF 4] focusOption_first [OF assms] by blast
  qed
qed


lemma ex_enabled:
  "enabledOptions (ex_props [ex_A, ex_B, ex_C]) = [listOption ex_A, listOption ex_C]"
  "enabledOptions (ex_props [ex_B]) = []"
  "enabledOptions (ex_props [ex_A, ex_A2, ex_C]) =
     [listOption ex_A, listOption ex_A2, listOption ex_C]"
  by (simp_all add: enabledOptions_def actionMenuOptions_def isOptionDisabled_def
      listOption_def ex_props_def ex_A_def ex_B_def ex_C_def ex_A2_def)

text \<open>
  Claim C2.  \<open>focusOption(direction)\<close>, for every option list and focus.  The enabled
  options are the options that are not disabled, in their order.  With none enabled the
  call changes nothing, whatever the direction.  Otherwise, with \<open>idx\<close> the index of the
  first enabled option whose value is the focused option's (\<open>-1\<close> with no focus or no
  such option): \<open>first\<close> focuses the first enabled option, \<open>last\<close> the last one, \<open>up\<close>
  the one at \<open>idx - 1\<close> when \<open>idx > 0\<close> and the last one otherwise, \<open>down\<close> the one at
  \<open>(idx + 1) mod count\<close>; so \<open>down\<close> with no focus lands on the first enabled option.
\<close>

theorem focusOption_moves:
  "(let es = enabledOptions props;
        idx = currentFocusedIndex props state;
        count = length es
    in es = filter (\<lambda>option. disabled option \<noteq> Some True) (actionMenuOptions props)
     \<and> idx = (case currentFocusedOption state of
                None \<Rightarrow> - 1
              | Some focused \<Rightarrow>
                  if \<exists>e\<in>set es. value e = value focused
                  then int (length (takeWhile (\<lambda>e. value e \<noteq> value focused) es))
                  else - 1)
     \<and> (es = [] \<longrightarrow> focusOption props state direction run = run)
     \<and> (es \<noteq> [] \<longrightarrow>
          focusOption props state ''first'' run =
            setCurrentFocusedOption (Some (es ! 0)) run
        \<and> focusOption props state ''last'' run =
            setCurrentFocusedOption (Some (es ! (count - 1))) run
        \<and> focusOption props state ''up'' run =
            setCurrentFocusedOption
              (Some (if idx > 0 then es ! nat (idx - 1) else es ! (count - 1))) run
        \<and> focusOption props state ''down'' run =
            setCurrentFocusedOption (Some (es ! nat ((idx + 1) mod int count))) run
        \<and> (idx > 0 \<longrightarrow> nat (idx - 1) < count)
        \<and> nat ((idx + 1) mod int count) < count
        \<and> (currentFocusedOption state = None \<longrightarrow>
             focusOption props state ''down'' run =
               setCurrentFocusedOption (Some (es ! 0)) run)))"
proof -
  let ?es = "enabledOptions props"
  let ?idx = "currentFocusedIndex props state"
  have a: "?es = filter (\<lambda>option. disabled option \<noteq> Some True) (actionMenuOptions props)"
    by (rule enabledOptions_not_disabled)
  have b: "?idx = (case currentFocusedOption state of
                None \<Rightarrow> - 1
              | Some focused \<Rightarrow>
                  if \<exists>e\<in>set ?es. value e = value focused
                  then int (length (takeWhile (\<lambda>e. value e \<noteq> value focused) ?es))
                  else - 1)"
    by (simp add: currentFocusedIndex_def findIndex_takeWhile split: option.split)
  have c: "focusOption props state direction run = run" if "?es = []"
    using that by (rule focusOption_empty)
  have r: "- 1 \<le> ?idx" "?idx < int (length ?es)"
    using currentFocusedIndex_range [of props state] by simp_all
  have d1: "nat (?idx - 1) < length ?es" if "?idx > 0"
    using that r by linarith
  have d2: "nat ((?idx + 1) mod int (length ?es)) < length ?es" if "?es \<noteq> []"
  proof -
    from that have pos: "0 < int (length ?es)" by simp
    then have "(?idx + 1) mod int (length ?es) < int (length ?es)" by simp
    then show ?thesis using pos by linarith
  qed
  have e: "focusOption props state ''down'' run =
             setCurrentFocusedOption (Some (?es ! 0)) run"
    if "?es \<noteq> []" "currentFocusedOption state = None"
  proof -
    from that(2) have "?idx = - 1" by (simp add: currentFocusedIndex_def)
    then show ?thesis using focusOption_down [OF that(1), of state run] by simp
  qed
  show ?thesis
    unfolding Let_def
    using a b c d1 d2 e focusOption_first [of props state run]
      focusOption_last [of props state run] focusOption_up [of props state run]
      focusOption_down [of props state run]
    by blast
qed

text \<open>
  Options \<open>a\<close>, \<open>b\<close> (disabled), \<open>c\<close>: from \<open>c\<close>, \<open>down\<close> wraps to \<open>a\<close> and \<open>up\<close> goes to
  \<open>a\<close>; with no focus \<open>down\<close> lands on \<open>a\<close>.  With \<open>b\<close> alone nothing is enabled and
  \<open>down\<close> changes nothing.
\<close>

theorem focusOption_moves_witness:
  "enabledOptions (ex_props [ex_A, ex_B, ex_C]) \<noteq> []
   \<and> currentFocusedOption (next_state
        (focusOption (ex_props [ex_A, ex_B, ex_C]) (focused_on True (Some (listOption ex_C))) ''down''
           (start (focused_on True (Some (listOption ex_C)))))) = Some (listOption ex_A)
   \<and> currentFocusedOption (next_state
        (focusOption (ex_props [ex_A, ex_B, ex_C]) (focused_on True (Some (listOption ex_C))) ''up''
           (start (focused_on True (Some (listOption ex_C)))))) = Some (listOption ex_A)
   \<and> currentFocusedOption (next_state
        (focusOption (ex_props [ex_A, ex_B, ex_C]) (focused_on True None) ''down''
           (start (focused_on True None)))) = Some (listOption ex_A)
   \<and> enabledOptions (ex_props [ex_B]) = []
   \<and> focusOption (ex_props [ex_B]) (focused_on True None) ''down'' (start (focused_on True None)) =
       start (focused_on True None)"
proof -
  have some: "enabledOptions (ex_props [ex_A, ex_B, ex_C]) \<noteq> []"
    and none: "enabledOptions (ex_props [ex_B]) = []"
    by (simp_all add: ex_enabled)
  have idx: "currentFocusedIndex (ex_props [ex_A, ex_B, ex_C])
               (focused_on True (Some (listOption ex_C))) = 1"
    "currentFocusedIndex (ex_props [ex_A, ex_B, ex_C]) (focused_on True None) = - 1"
    by (simp_all add: currentFocusedIndex_def findIndex_def focused_on_def ex_enabled ex_value)
  from focusOption_moves [of "ex_props [ex_A, ex_B, ex_C]"
      "focused_on True (Some (listOption ex_C))" "''down''"
      "start (focused_on True (Some (listOption ex_C)))"] some
  have a: "focusOption (ex_props [ex_A, ex_B, ex_C]) (focused_on True (Some (listOption ex_C)))
             ''down'' (start (focused_on True (Some (listOption ex_C)))) =
           setCurrentFocusedOption (Some (listOption ex_A))
             (start (focused_on True (Some (listOption ex_C))))"
    and b: "focusOption (ex_props [ex_A, ex_B, ex_C]) (focused_on True (Some (listOption ex_C)))
             ''up'' (start (focused_on True (Some (listOption ex_C)))) =
           setCurrentFocusedOption (Some (listOption ex_A))
             (start (focused_on True (Some (listOption ex_C))))"
    by (simp_all add: Let_def idx ex_enabled)
  from focusOption_moves [of "ex_props [ex_A, ex_B, ex_C]" "focused_on True None" "''down''"
      "start (focused_on True None)"] some
  have c: "focusOption (ex_props [ex_A, ex_B, ex_C]) (focused_on True None) ''down''
             (start (focused_on True None)) =
           setCurrentFocusedOption (Some (listOption ex_A)) (start (focused_on True None))"
    by (simp add: Let_def idx ex_enabled)
  from focusOption_moves [of "ex_props [ex_B]" "focused_on True None" "''down''"
      "start (focused_on True None)"] none
  have d: "focusOption (ex_props [ex_B]) (focused_on True None) ''down'' (start (focused_on True None)) =
           start (focused_on True None)"
    by (simp add: Let_def)
  show ?thesis
    using some none by (simp add: a b c d next_state_setCurrentFocusedOption)
qed


text \<open>
  Claim C7, as amended.  \<open>focusOption\<close> keeps the focus on an enabled option: in every
  direction (wrapping included) it leaves a focus that is empty or enabled so, and when
  some option is enabled it sets the focus to one of the enabled options, which is not
  disabled.  \<open>hoverOption\<close> sets the focus to the option it is given, without a check:
  it keeps the focus enabled when that option is an enabled one.
\<close>

theorem focus_stays_enabled:
  "(focus_enabled props (next_state run) \<longrightarrow>
      focus_enabled props (next_state (focusOption props state direction run)))
   \<and> (enabledOptions props \<noteq> [] \<longrightarrow>
        (\<exists>option\<in>set (enabledOptions props).
           currentFocusedOption (next_state (focusOption props state direction run)) =
             Some option))
   \<and> (focus_enabled props (next_state (focusOption props state direction run)) \<longrightarrow>
        \<not> isOptionDisabled
            (currentFocusedOption (next_state (focusOption props state direction run))))
   \<and> currentFocusedOption (next_state (hoverOption option run)) = Some option
   \<and> (option \<in> set (enabledOptions props) \<longrightarrow>
        focus_enabled props (next_state (hoverOption option run)))"
proof -
  have landed: "\<exists>option\<in>set (enabledOptions props).
           currentFocusedOption (next_state (focusOption props state direction run)) =
             Some option" if "enabledOptions props \<noteq> []"
    using focusOption_lands_enabled [OF that, of state direction run]
    by (auto simp: next_state_setCurrentFocusedOption)
  have kept: "focus_enabled props (next_state (focusOption props state direction run))"
    if "focus_enabled props (next_state run)"
  proof (cases "enabledOptions props = []")
    case True
    with that show ?thesis by (simp add: focusOption_empty)
  next
    case False
    from landed [OF False] show ?thesis by (auto simp: focus_enabled_def)
  qed
  have sound: "\<not> isOptionDisabled (currentFocusedOption st)" if "focus_enabled props st" for st
    using that enabledOptions_enabled [of _ props]
    by (cases "currentFocusedOption st") (auto simp: focus_enabled_def isOptionDisabled_def)
  have hover: "focus_enabled props (next_state (hoverOption option run))"
    if "option \<in> set (enabledOptions props)"
    using that by (simp add: focus_enabled_def next_state_hoverOption)
  show ?thesis
    using landed kept sound hover by (simp add: next_state_hoverOption)
qed

theorem focus_stays_enabled_witness:
  "focus_enabled (ex_props [ex_A, ex_B, ex_C])
     (next_state (start (focused_on True (Some (listOption ex_C)))))
   \<and> enabledOptions (ex_props [ex_A, ex_B, ex_C]) \<noteq> []
   \<and> listOption ex_A \<in> set (enabledOptions (ex_props [ex_A, ex_B, ex_C]))
   \<and> focus_enabled (ex_props [ex_A, ex_B, ex_C])
       (next_state
          (focusOption (ex_props [ex_A, ex_B, ex_C]) (focused_on True (Some (listOption ex_C)))
             ''down'' (start (focused_on True (Some (listOption ex_C))))))
   \<and> focus_enabled (ex_props [ex_A, ex_B, ex_C])
       (next_state
          (hoverOption (listOption ex_A) (start (focused_on True (Some (listOption ex_C))))))"
proof -
  have h: "focus_enabled (ex_props [ex_A, ex_B, ex_C])
     (next_state (start (focused_on True (Some (listOption ex_C)))))"
    "enabledOptions (ex_props [ex_A, ex_B, ex_C]) \<noteq> []"
    "listOption ex_A \<in> set (enabledOptions (ex_props [ex_A, ex_B, ex_C]))"
    by (simp_all add: focus_enabled_def start_def focused_on_def ex_enabled)
  from focus_stays_enabled [of "ex_props [ex_A, ex_B, ex_C]"
      "start (focused_on True (Some (listOption ex_C)))"
      "focused_on True (Some (listOption ex_C))" "''down''" "listOption ex_A"] h
  show ?thesis by blast
qed

text \<open>
  The claim as it is written fails for \<open>hoverOption\<close>: with the options \<open>a\<close>,
  \<open>b\<close> (disabled), \<open>c\<close> and an empty focus, hovering \<open>b\<close> focuses the disabled option.
\<close>

theorem hoverOption_disabled_counterexample:
  "focus_enabled (ex_props [ex_A, ex_B, ex_C]) (next_state (start (focused_on True None)))
   \<and> \<not> focus_enabled (ex_props [ex_A, ex_B, ex_C])
        (next_state (hoverOption (listOption ex_B) (start (focused_on True None))))
   \<and> currentFocusedOption
        (next_state (hoverOption (listOption ex_B) (start (focused_on True None)))) =
       Some (listOption ex_B)
   \<and> isOptionDisabled (Some (listOption ex_B))"
proof -
  have "listOption ex_B \<noteq> listOption ex_A" "listOption ex_B \<noteq> listOption ex_C"
    by (simp_all add: listOption_def ex_A_def ex_B_def ex_C_def)
  then have out: "listOption ex_B \<notin> set (enabledOptions (ex_props [ex_A, ex_B, ex_C]))"
    by (simp add: ex_enabled)
  have dis: "isOptionDisabled (Some (listOption ex_B))"
    by (simp add: isOptionDisabled_def listOption_def ex_B_def)
  show ?thesis
    using out dis
    by (simp add: focus_enabled_def next_state_hoverOption start_def focused_on_def)
qed

text \<open>
  Claim C10.  \<open>focusOption\<close> finds the focused option among the enabled ones by its
  \<open>value\<close>: the index it uses is that of the first enabled option with the focused
  option's value.  Two focused options with the same value navigate alike; so from the
  later of two enabled options with equal values navigation goes on as from the first
  of them.  A focused option whose value no enabled option has counts as no focus
  (index \<open>-1\<close>).
\<close>

theorem focus_resolved_by_value:
  "(let es = enabledOptions props;
        at = (\<lambda>focus. state \<lparr> currentFocusedOption := focus \<rparr>)
    in currentFocusedIndex props (at (Some f)) =
         findIndex (\<lambda>enabledOption. value enabledOption = value f) es
     \<and> (currentFocusedIndex props (at (Some f)) \<noteq> - 1 \<longrightarrow>
          0 \<le> currentFocusedIndex props (at (Some f))
        \<and> nat (currentFocusedIndex props (at (Some f))) < length es
        \<and> value (es ! nat (currentFocusedIndex props (at (Some f)))) = value f
        \<and> (\<forall>k < nat (currentFocusedIndex props (at (Some f))). value (es ! k) \<noteq> value f))
     \<and> (value f = value g \<longrightarrow>
          focusOption props (at (Some f)) direction run =
          focusOption props (at (Some g)) direction run)
     \<and> (\<forall>i j. i < j \<and> j < length es \<and> value (es ! i) = value (es ! j) \<and>
              (\<forall>k < i. value (es ! k) \<noteq> value (es ! i)) \<longrightarrow>
          currentFocusedIndex props (at (Some (es ! j))) = int i
        \<and> focusOption props (at (Some (es ! j))) direction run =
          focusOption props (at (Some (es ! i))) direction run)
     \<and> ((\<forall>e\<in>set es. value e \<noteq> value f) \<longrightarrow>
          currentFocusedIndex props (at (Some f)) = - 1
        \<and> currentFocusedIndex props (at None) = - 1
        \<and> focusOption props (at (Some f)) direction run =
          focusOption props (at None) direction run))"
proof -
  let ?es = "enabledOptions props"
  let ?at = "\<lambda>focus. state \<lparr> currentFocusedOption := focus \<rparr>"
  let ?p = "\<lambda>f enabledOption. value enabledOption = value f"
  have idx: "currentFocusedIndex props (?at (Some f)) = findIndex (?p f) ?es" for f
    by (simp add: currentFocusedIndex_def)
  have none: "currentFocusedIndex props (?at None) = - 1"
    by (simp add: currentFocusedIndex_def)
  have by_index: "focusOption props s1 direction run = focusOption props s2 direction run"
    if "currentFocusedIndex props s1 = currentFocusedIndex props s2" for s1 s2
    using that by (simp add: focusOption_def)
  have first: "0 \<le> findIndex (?p f) ?es \<and> nat (findIndex (?p f) ?es) < length ?es
      \<and> value (?es ! nat (findIndex (?p f) ?es)) = value f
      \<and> (\<forall>k < nat (findIndex (?p f) ?es). value (?es ! k) \<noteq> value f)"
    if "findIndex (?p f) ?es \<noteq> - 1"
    using findIndex_first [OF that] by blast
  have same: "focusOption props (?at (Some f)) direction run =
              focusOption props (?at (Some g)) direction run" if "value f = value g" for f g
    by (rule by_index) (simp add: idx that)
  have dup: "currentFocusedIndex props (?at (Some (?es ! j))) = int i
        \<and> focusOption props (?at (Some (?es ! j))) direction run =
          focusOption props (?at (Some (?es ! i))) direction run"
    if "i < j" "j < length ?es" "value (?es ! i) = value (?es ! j)"
      "\<forall>k < i. value (?es ! k) \<noteq> value (?es ! i)" for i j
  proof -
    let ?n = "findIndex (?p (?es ! j)) ?es"
    have mem: "?es ! j \<in> set ?es" using that(2) by simp
    have "?n \<noteq> - 1"
      using mem by (auto simp: findIndex_takeWhile)
    from findIndex_first [OF this]
    have n: "0 \<le> ?n" "nat ?n < length ?es" "value (?es ! nat ?n) = value (?es ! j)"
      "\<forall>k < nat ?n. value (?es ! k) \<noteq> value (?es ! j)"
      by simp_all
    have "\<not> nat ?n < i" using that(3,4) n(3) by auto
    moreover have "\<not> i < nat ?n" using that(3) n(4) by auto
    ultimately have "nat ?n = i" by linarith
    with n(1) have "?n = int i" by linarith
    then show ?thesis using same [OF that(3) [symmetric]] by (simp add: idx)
  qed
  have miss: "currentFocusedIndex props (?at (Some f)) = - 1
        \<and> currentFocusedIndex props (?at None) = - 1
        \<and> focusOption props (?at (Some f)) direction run =
          focusOption props (?at None) direction run"
    if "\<forall>e\<in>set ?es. value e \<noteq> value f"
  proof -
    have "currentFocusedIndex props (?at (Some f)) = - 1"
      using that by (simp add: idx findIndex_no_match)
    then show ?thesis using none by_index by simp
  qed
  have first': "currentFocusedIndex props (?at (Some f)) \<noteq> - 1 \<longrightarrow>
          0 \<le> currentFocusedIndex props (?at (Some f))
        \<and> nat (currentFocusedIndex props (?at (Some f))) < length ?es
        \<and> value (?es ! nat (currentFocusedIndex props (?at (Some f)))) = value f
        \<and> (\<forall>k < nat (currentFocusedIndex props (?at (Some f))). value (?es ! k) \<noteq> value f)"
    unfolding idx using first by (rule impI)
  have dup': "\<forall>i j. i < j \<and> j < length ?es \<and> value (?es ! i) = value (?es ! j) \<and>
              (\<forall>k < i. value (?es ! k) \<noteq> value (?es ! i)) \<longrightarrow>
          currentFocusedIndex props (?at (Some (?es ! j))) = int i
        \<and> focusOption props (?at (Some (?es ! j))) direction run =
          focusOption props (?at (Some (?es ! i))) direction run"
    using dup by (intro allI impI) (elim conjE)
  show ?thesis
    unfolding Let_def
    apply (intro conjI)
        apply (rule idx)
       apply (rule first')
      apply (rule impI, erule same)
     apply (rule dup')
    apply (rule impI, erule miss)
    done
qed

text \<open>
  Enabled options \<open>a\<close>, \<open>a\<close> again, \<open>c\<close>: with the focus on the second \<open>a\<close> the index
  is 0, and \<open>down\<close> acts as from the first \<open>a\<close>: it lands on the second \<open>a\<close> again.
  The disabled \<open>b\<close> as focus counts as no focus.
\<close>

theorem focus_resolved_by_value_witness:
  "value (listOption ex_A2) = value (listOption ex_A)
   \<and> currentFocusedIndex (ex_props [ex_A, ex_A2, ex_C])
        (focused_on True (Some (listOption ex_A2))) = 0
   \<and> focusOption (ex_props [ex_A, ex_A2, ex_C]) (focused_on True (Some (listOption ex_A2)))
        ''down'' (start (focused_on True None)) =
       focusOption (ex_props [ex_A, ex_A2, ex_C]) (focused_on True (Some (listOption ex_A)))
        ''down'' (start (focused_on True None))
   \<and> currentFocusedOption (next_state
        (focusOption (ex_props [ex_A, ex_A2, ex_C]) (focused_on True (Some (listOption ex_A2)))
           ''down'' (start (focused_on True None)))) = Some (listOption ex_A2)
   \<and> value (listOption ex_B) \<notin> value ` set (enabledOptions (ex_props [ex_A, ex_A2, ex_C]))
   \<and> focusOption (ex_props [ex_A, ex_A2, ex_C]) (focused_on True (Some (listOption ex_B)))
        ''down'' (start (focused_on True None)) =
       focusOption (ex_props [ex_A, ex_A2, ex_C]) (focused_on True None)
        ''down'' (start (focused_on True None))"
proof -
  let ?P = "ex_props [ex_A, ex_A2, ex_C]"
  let ?R = "start (focused_on True None) :: string Run"
  have at: "(focused_on True None) \<lparr> currentFocusedOption := focus \<rparr> = focused_on True focus"
    for focus :: "string OptionType option"
    by (simp add: focused_on_def)
  have v: "value (listOption ex_A2) = value (listOption ex_A)"
    and miss: "\<forall>e\<in>set (enabledOptions ?P). value e \<noteq> value (listOption ex_B)"
    by (simp_all add: ex_value ex_enabled)
  note dup = focus_resolved_by_value [of ?P "focused_on True None" "listOption ex_A2"
      "listOption ex_A" "''down''" ?R, unfolded Let_def at]
  note lost = focus_resolved_by_value [of ?P "focused_on True None" "listOption ex_B"
      "listOption ex_B" "''down''" ?R, unfolded Let_def at]
  from dup have "\<forall>i j. i < j \<and> j < length (enabledOptions ?P) \<and>
        value (enabledOptions ?P ! i) = value (enabledOptions ?P ! j) \<and>
        (\<forall>k < i. value (enabledOptions ?P ! k) \<noteq> value (enabledOptions ?P ! i)) \<longrightarrow>
      currentFocusedIndex ?P (focused_on True (Some (enabledOptions ?P ! j))) = int i"
    by blast
  from this [rule_format, of 0 1]
  have idx: "currentFocusedIndex ?P (focused_on True (Some (listOption ex_A2))) = 0"
    by (simp add: ex_enabled ex_value)
  have same: "focusOption ?P (focused_on True (Some (listOption ex_A2))) ''down'' ?R =
              focusOption ?P (focused_on True (Some (listOption ex_A))) ''down'' ?R"
    using dup v by blast
  have gone: "focusOption ?P (focused_on True (Some (listOption ex_B))) ''down'' ?R =
              focusOption ?P (focused_on True None) ''down'' ?R"
    using lost miss by blast
  have lands: "currentFocusedOption (next_state
        (focusOption ?P (focused_on True (Some (listOption ex_A2))) ''down'' ?R)) =
      Some (listOption ex_A2)"
    using focusOption_down [of ?P "focused_on True (Some (listOption ex_A2))" ?R]
    by (simp add: idx ex_enabled next_state_setCurrentFocusedOption)
  from miss have miss': "value (listOption ex_B) \<notin> value ` set (enabledOptions ?P)"
    by (auto simp: image_iff)
  from v idx same lands miss' gone show ?thesis by blast
qed

end
